theory Spec2Isabelle
  imports Complex_Main "HOL-Library.AList"
begin

section \<open>Values exchanged with a Collector\<close>

text \<open>
  A Collector hands the orchestrator Python dicts (\<^verbatim>\<open>Dict[str, Any]\<close>). Their values are
  modelled by \<open>pyval\<close>: None, integers, strings, lists and string-keyed dicts. A dict is
  an association list in insertion order; \<open>dict_get d k dflt\<close> is \<^verbatim>\<open>d.get(k, dflt)\<close>.
  Values that are looked up in a url set are taken to be hashable, as the source's
  annotations say (\<^verbatim>\<open>existing_urls: Set[str]\<close>, \<^verbatim>\<open>announcement_urls: List[str]\<close>).
\<close>

datatype pyval =
    PNone
  | PInt int
  | PStr string
  | PList "pyval list"
  | PDict "(string \<times> pyval) list"

type_synonym pydict = "(string \<times> pyval) list"

definition dict_get :: "(string \<times> 'v) list \<Rightarrow> string \<Rightarrow> 'v \<Rightarrow> 'v" where
  "dict_get d k dflt = (case map_of d k of None \<Rightarrow> dflt | Some v \<Rightarrow> v)"

text \<open>Python truthiness, as tested by \<^verbatim>\<open>if url\<close>.\<close>

fun truthy :: "pyval \<Rightarrow> bool" where
  "truthy PNone = False"
| "truthy (PInt n) = (n \<noteq> 0)"
| "truthy (PStr s) = (s \<noteq> [])"
| "truthy (PList xs) = (xs \<noteq> [])"
| "truthy (PDict kvs) = (kvs \<noteq> [])"

text \<open>
  Values of the statistics dicts: counts, the float \<^verbatim>\<open>success_rate\<close> (kept as the exact
  rational that the float approximates) and strings.
\<close>

datatype stat = SInt int | SFloat rat | SStr string

datatype error =
    ValueError string
  | KeyError string
  | ZeroDivisionError

section \<open>ScraperResult\<close>

text \<open>
  The two standardized record shapes. Field names carry a prefix (\<open>a_\<close> for announcements,
  \<open>c_\<close> for full content) because both dicts use the keys \<^verbatim>\<open>id\<close>, \<^verbatim>\<open>url\<close>, \<^verbatim>\<open>title\<close>, ...
\<close>

record announcement_rec =
  a_id :: pyval
  a_title :: pyval
  a_url :: pyval
  a_date :: pyval
  a_category :: pyval
  a_excerpt :: pyval
  a_source_website :: pyval
  a_scraped_at :: string
  a_raw_data :: pydict

record content_rec =
  c_id :: pyval
  c_url :: pyval
  c_title :: pyval
  c_date_published :: pyval
  c_full_content :: pyval
  c_word_count :: pyval
  c_images :: pyval
  c_links :: pyval
  c_contact_info :: pyval
  c_tags :: pyval
  c_comments :: pyval
  c_metadata :: pyval
  c_source_website :: pyval
  c_scraped_at :: string
  c_raw_data :: pydict

record ScraperResult =
  scraper_name :: pyval
  website :: pyval
  scraped_at :: string
  session_id :: string
  announcements :: "announcement_rec list"
  full_content :: "content_rec list"
  metadata :: pydict
  errors :: "string list"
  statistics :: "(string \<times> stat) list"
  existing_urls :: "pyval set"
  new_urls :: "pyval set"
  skipped_duplicates :: nat

text \<open>
  The clock and the uuid generator are inputs: \<open>now\<close> is the value of
  \<^verbatim>\<open>datetime.now().isoformat()\<close> read by the constructor and \<open>uuid4 k\<close> is the \<open>k\<close>-th
  value of \<^verbatim>\<open>str(uuid.uuid4())\<close> drawn for this result. The constructor draws number 0
  for \<^verbatim>\<open>session_id\<close>; every standardized record draws one more (Python evaluates the
  default argument of \<^verbatim>\<open>get\<close> whether or not the key is present), so the next draw is
  numbered by the records held so far.
\<close>

definition ScraperResult_init ::
  "string \<Rightarrow> (nat \<Rightarrow> string) \<Rightarrow> pyval \<Rightarrow> pyval \<Rightarrow> pyval set \<Rightarrow> ScraperResult" where
  "ScraperResult_init now uuid4 name site existing =
     \<lparr> scraper_name = name, website = site, scraped_at = now, session_id = uuid4 0,
       announcements = [], full_content = [], metadata = [], errors = [],
       statistics = [], existing_urls = existing, new_urls = {},
       skipped_duplicates = 0 \<rparr>"

definition next_uuid :: "(nat \<Rightarrow> string) \<Rightarrow> ScraperResult \<Rightarrow> string" where
  "next_uuid uuid4 r = uuid4 (Suc (length (announcements r) + length (full_content r)))"

definition standardize_announcement ::
  "(nat \<Rightarrow> string) \<Rightarrow> ScraperResult \<Rightarrow> pydict \<Rightarrow> announcement_rec" where
  "standardize_announcement uuid4 r announcement =
     \<lparr> a_id = dict_get announcement ''id'' (PStr (next_uuid uuid4 r)),
       a_title = dict_get announcement ''title'' (PStr ''''),
       a_url = dict_get announcement ''url'' (PStr ''''),
       a_date = dict_get announcement ''date'' (PStr ''''),
       a_category = dict_get announcement ''category'' (PStr ''General''),
       a_excerpt = dict_get announcement ''excerpt'' (PStr ''''),
       a_source_website = website r,
       a_scraped_at = scraped_at r,
       a_raw_data = announcement \<rparr>"

definition standardize_content ::
  "(nat \<Rightarrow> string) \<Rightarrow> ScraperResult \<Rightarrow> pydict \<Rightarrow> content_rec" where
  "standardize_content uuid4 r content =
     \<lparr> c_id = dict_get content ''id'' (PStr (next_uuid uuid4 r)),
       c_url = dict_get content ''url'' (PStr ''''),
       c_title = dict_get content ''title'' (PStr ''''),
       c_date_published = dict_get content ''date_published'' (PStr ''''),
       c_full_content = dict_get content ''full_content'' (PStr ''''),
       c_word_count = dict_get content ''word_count'' (PInt 0),
       c_images = dict_get content ''images'' (PList []),
       c_links = dict_get content ''links'' (PList []),
       c_contact_info = dict_get content ''contact_info'' (PStr ''''),
       c_tags = dict_get content ''tags'' (PList []),
       c_comments = dict_get content ''comments'' (PList []),
       c_metadata = dict_get content ''metadata'' (PDict []),
       c_source_website = website r,
       c_scraped_at = scraped_at r,
       c_raw_data = content \<rparr>"

text \<open>
  \<^verbatim>\<open>add_announcement\<close> returns its boolean together with the updated result: \<open>False\<close>
  for a skipped duplicate, \<open>True\<close> for an added item.
\<close>

definition add_announcement ::
  "(nat \<Rightarrow> string) \<Rightarrow> pydict \<Rightarrow> ScraperResult \<Rightarrow> bool \<times> ScraperResult" where
  "add_announcement uuid4 announcement r =
     (let url = dict_get announcement ''url'' (PStr '''') in
      if truthy url \<and> url \<in> existing_urls r
      then (False, r\<lparr>skipped_duplicates := skipped_duplicates r + 1\<rparr>)
      else
        let standardized = standardize_announcement uuid4 r announcement;
            r1 = r\<lparr>announcements := announcements r @ [standardized]\<rparr>;
            r2 = (if truthy url then r1\<lparr>new_urls := insert url (new_urls r1)\<rparr> else r1)
        in (True, r2))"

definition add_full_content ::
  "(nat \<Rightarrow> string) \<Rightarrow> pydict \<Rightarrow> ScraperResult \<Rightarrow> ScraperResult" where
  "add_full_content uuid4 content r =
     r\<lparr>full_content := full_content r @ [standardize_content uuid4 r content]\<rparr>"

text \<open>
  \<^verbatim>\<open>to_dict\<close>. The statistics dict literal ends with \<^verbatim>\<open>**self.statistics\<close>: its
  entries overwrite equal keys in place and new keys are appended, which is
  \<^const>\<open>AList.update\<close> folded over them.
\<close>

record scraper_info_rec =
  si_scraper_name :: pyval
  si_website :: pyval
  si_scraped_at :: string
  si_session_id :: string

record corpus_entry =
  e_scraper_info :: scraper_info_rec
  e_statistics :: "(string \<times> stat) list"
  e_announcements :: "announcement_rec list"
  e_full_content :: "content_rec list"
  e_metadata :: pydict
  e_errors :: "string list"

definition dict_update_all :: "(string \<times> 'v) list \<Rightarrow> (string \<times> 'v) list \<Rightarrow> (string \<times> 'v) list" where
  "dict_update_all d other = fold (\<lambda>(k, v). AList.update k v) other d"

definition to_dict :: "ScraperResult \<Rightarrow> corpus_entry" where
  "to_dict r =
     \<lparr> e_scraper_info =
         \<lparr> si_scraper_name = scraper_name r, si_website = website r,
           si_scraped_at = scraped_at r, si_session_id = session_id r \<rparr>,
       e_statistics =
         dict_update_all
           [(''total_announcements'', SInt (int (length (announcements r)))),
            (''total_full_content'', SInt (int (length (full_content r)))),
            (''total_errors'', SInt (int (length (errors r)))),
            (''skipped_duplicates'', SInt (int (skipped_duplicates r))),
            (''new_urls_found'', SInt (int (card (new_urls r))))]
           (statistics r),
       e_announcements = announcements r,
       e_full_content = full_content r,
       e_metadata = metadata r,
       e_errors = errors r \<rparr>"

section \<open>The master file\<close>

record scraping_history =
  first_scrape :: string
  last_updated :: string
  total_scrapes :: "int option"

record store =
  scraping_history :: scraping_history
  summary :: "(string \<times> stat) list"
  results_by_scraper :: "(string \<times> corpus_entry) list"

text \<open>
  The backing file is absent, or holds a JSON document of the store's shape, or holds
  something \<^verbatim>\<open>open\<close>/\<^verbatim>\<open>json.load\<close> raises on (truncated or corrupt JSON, an empty
  file, an unreadable file).
\<close>

datatype file_state = Absent | Corrupt | Readable store

text \<open>
  \<open>clock k\<close> is the \<open>k\<close>-th value of \<^verbatim>\<open>datetime.now().isoformat()\<close> read during a call.
\<close>

definition empty_store :: "(nat \<Rightarrow> string) \<Rightarrow> store" where
  "empty_store clock =
     \<lparr> scraping_history =
         \<lparr> first_scrape = clock 0, last_updated = clock 1, total_scrapes = Some 0 \<rparr>,
       summary =
         [(''total_announcements'', SInt 0), (''total_full_content'', SInt 0),
          (''total_errors'', SInt 0)],
       results_by_scraper = [] \<rparr>"

text \<open>
  \<^verbatim>\<open>load_existing_data\<close>. The \<^verbatim>\<open>except\<close> branch prints a warning and calls the method
  again on the same, unchanged file. The recursion has no bound, so the model is a
  partial function: \<open>None\<close> is a call that never returns a value.
\<close>

partial_function (option) load_existing_data :: "(nat \<Rightarrow> string) \<Rightarrow> file_state \<Rightarrow> store option" where
  "load_existing_data clock f =
     (case f of
        Absent \<Rightarrow> Some (empty_store clock)
      | Readable d \<Rightarrow> Some d
      | Corrupt \<Rightarrow> load_existing_data clock f)"

definition entry_urls :: "corpus_entry \<Rightarrow> pyval set" where
  "entry_urls e =
     set (filter truthy (map a_url (e_announcements e)))
     \<union> set (filter truthy (map c_url (e_full_content e)))"

fun collect_urls :: "store \<Rightarrow> string list \<Rightarrow> pyval set \<Rightarrow> pyval set" where
  "collect_urls d [] acc = acc"
| "collect_urls d (scraper # rest) acc =
     collect_urls d rest
       (case map_of (results_by_scraper d) scraper of
          None \<Rightarrow> acc
        | Some scraper_data \<Rightarrow> acc \<union> entry_urls scraper_data)"

definition get_existing_urls ::
  "(nat \<Rightarrow> string) \<Rightarrow> file_state \<Rightarrow> string option \<Rightarrow> pyval set option" where
  "get_existing_urls clock f scraper_name_opt =
     (case load_existing_data clock f of
        None \<Rightarrow> None
      | Some existing_data \<Rightarrow>
          let scrapers_to_check =
                (case scraper_name_opt of
                   None \<Rightarrow> map fst (results_by_scraper existing_data)
                 | Some n \<Rightarrow> if n \<noteq> [] then [n] else map fst (results_by_scraper existing_data))
          in Some (collect_urls existing_data scrapers_to_check {}))"

section \<open>Collectors and the orchestrator\<close>

text \<open>
  A Collector is the four methods of \<^verbatim>\<open>BaseScraperInterface\<close>. A method that raises is
  modelled by its exception's text: \<open>Inl msg\<close> for \<^verbatim>\<open>scrape_announcements\<close>, and
  \<open>Raised done msg\<close> for \<^verbatim>\<open>scrape_full_content\<close>, where \<open>done\<close> are the content dicts
  the Collector had built when it raised. Python delivers nothing of a call that raises,
  so \<open>done\<close> never reaches the orchestrator; it is kept to speak about it. Keyword
  arguments are passed through unread and are left out, and so is what the orchestrator
  prints to the console.
\<close>

datatype fc_outcome = Returned "pydict list" | Raised "pydict list" string

record collector =
  get_scraper_info :: pydict
  scrape_announcements :: "string \<Rightarrow> string \<Rightarrow> string + pydict list"
  scrape_full_content :: "pyval list \<Rightarrow> fc_outcome"
  validate_date_format :: "string \<Rightarrow> bool"

text \<open>The calls a run makes to its Collector, in order.\<close>

datatype collector_call =
    Call_get_scraper_info
  | Call_scrape_announcements string string
  | Call_scrape_full_content "pyval list"

record orchestrator =
  loaded_scrapers :: "(string \<times> collector) list"
  results :: "(string \<times> ScraperResult) list"
  master_file_path :: string
  master_file :: file_state

text \<open>The loop of step 1: \<open>(result, new_announcements)\<close> after each listing record.\<close>

fun admit_all ::
  "(nat \<Rightarrow> string) \<Rightarrow> pydict list \<Rightarrow> ScraperResult \<times> pydict list \<Rightarrow> ScraperResult \<times> pydict list" where
  "admit_all uuid4 [] (result, new_announcements) = (result, new_announcements)"
| "admit_all uuid4 (announcement # rest) (result, new_announcements) =
     (case add_announcement uuid4 announcement result of
        (True, result') \<Rightarrow> admit_all uuid4 rest (result', new_announcements @ [announcement])
      | (False, result') \<Rightarrow> admit_all uuid4 rest (result', new_announcements))"

definition new_urls_of :: "pydict list \<Rightarrow> pyval list" where
  "new_urls_of new_announcements =
     map (\<lambda>ann. dict_get ann ''url'' (PStr ''''))
       (filter (\<lambda>ann. truthy (dict_get ann ''url'' PNone)) new_announcements)"

text \<open>
  True division of two lengths; \<^verbatim>\<open>len(a) / len(b)\<close> raises \<^verbatim>\<open>ZeroDivisionError\<close> when
  the divisor is 0.
\<close>

definition true_div :: "nat \<Rightarrow> nat \<Rightarrow> error + rat" where
  "true_div a b = (if b = 0 then Inl ZeroDivisionError else Inr (of_nat a / of_nat b))"

definition success_rate :: "ScraperResult \<Rightarrow> error + stat" where
  "success_rate result =
     (if announcements result \<noteq> []
      then (case true_div (length (full_content result)) (length (announcements result)) of
              Inl e \<Rightarrow> Inl e
            | Inr q \<Rightarrow> Inr (SFloat q))
      else Inr (SInt 0))"

definition update_statistics :: "string \<Rightarrow> string \<Rightarrow> ScraperResult \<Rightarrow> string option \<times> ScraperResult" where
  "update_statistics start_date end_date result =
     (case success_rate result of
        Inl e \<Rightarrow> (Some ''division by zero'', result)
      | Inr rate \<Rightarrow>
          (None,
           result\<lparr>statistics :=
             dict_update_all (statistics result)
               [(''date_range'', SStr (start_date @ '' to '' @ end_date)),
                (''success_rate'', rate)]\<rparr>))"

text \<open>
  The body of the \<^verbatim>\<open>try\<close> block of \<^verbatim>\<open>run_scraper\<close>: the exception it ends with, if any,
  the result as the block left it, and the Collector calls it made.
\<close>

definition run_try ::
  "(nat \<Rightarrow> string) \<Rightarrow> collector \<Rightarrow> string \<Rightarrow> string \<Rightarrow> bool \<Rightarrow> ScraperResult
     \<Rightarrow> string option \<times> ScraperResult \<times> collector_call list" where
  "run_try uuid4 scraper start_date end_date fc result =
     (case scrape_announcements scraper start_date end_date of
        Inl e \<Rightarrow> (Some e, result, [Call_scrape_announcements start_date end_date])
      | Inr anns \<Rightarrow>
          (case admit_all uuid4 anns (result, []) of
             (result1, new_announcements) \<Rightarrow>
               if fc \<and> new_announcements \<noteq> [] \<and> new_urls_of new_announcements \<noteq> []
               then
                 (case scrape_full_content scraper (new_urls_of new_announcements) of
                    Raised done e \<Rightarrow>
                      (Some e, result1,
                       [Call_scrape_announcements start_date end_date,
                        Call_scrape_full_content (new_urls_of new_announcements)])
                  | Returned full_content_data \<Rightarrow>
                      (case update_statistics start_date end_date
                              (fold (add_full_content uuid4) full_content_data result1) of
                         (exc, result2) \<Rightarrow>
                           (exc, result2,
                            [Call_scrape_announcements start_date end_date,
                             Call_scrape_full_content (new_urls_of new_announcements)])))
               else
                 (case update_statistics start_date end_date result1 of
                    (exc, result2) \<Rightarrow>
                      (exc, result2, [Call_scrape_announcements start_date end_date]))))"

text \<open>
  \<open>repr\<close> is Python's \<^verbatim>\<open>repr\<close> of a string, which the f-string applies to each
  element of the list of available names.
\<close>

definition join :: "string \<Rightarrow> string list \<Rightarrow> string" where
  "join sep xs = (case xs of [] \<Rightarrow> [] | x # rest \<Rightarrow> x @ concat (map (\<lambda>y. sep @ y) rest))"

definition repr_list :: "(string \<Rightarrow> string) \<Rightarrow> string list \<Rightarrow> string" where
  "repr_list repr xs = ''['' @ join '', '' (map repr xs) @ '']''"

definition not_found_message :: "(string \<Rightarrow> string) \<Rightarrow> string \<Rightarrow> string list \<Rightarrow> string" where
  "not_found_message repr nm available =
     ''Scraper '' @ [CHR 0x27] @ nm @ [CHR 0x27] @ '' not found. Available: ''
       @ repr_list repr available"

text \<open>The message of the \<^verbatim>\<open>except\<close> branch, from the exception's text.\<close>

definition error_msg :: "string \<Rightarrow> string \<Rightarrow> string" where
  "error_msg nm e = ''Error running scraper '' @ nm @ '': '' @ e"

text \<open>
  \<^verbatim>\<open>run_scraper\<close>. The outcome is the raised error or the returned result, the
  Collector calls made, and the orchestrator afterwards; \<open>None\<close> when the call never
  returns (through \<^const>\<open>load_existing_data\<close>).
\<close>

definition run_scraper ::
  "(string \<Rightarrow> string) \<Rightarrow> (nat \<Rightarrow> string) \<Rightarrow> string \<Rightarrow> (nat \<Rightarrow> string)
     \<Rightarrow> string \<Rightarrow> string \<Rightarrow> string \<Rightarrow> bool \<Rightarrow> orchestrator
     \<Rightarrow> ((error + ScraperResult) \<times> collector_call list \<times> orchestrator) option" where
  "run_scraper repr clock now uuid4 nm start_date end_date fc orch =
     (case map_of (loaded_scrapers orch) nm of
        None \<Rightarrow>
          Some (Inl (ValueError (not_found_message repr nm (map fst (loaded_scrapers orch)))),
                [], orch)
      | Some scraper \<Rightarrow>
          (case map_of (get_scraper_info scraper) ''name'' of
             None \<Rightarrow> Some (Inl (KeyError ''name''), [Call_get_scraper_info], orch)
           | Some name \<Rightarrow>
               (case get_existing_urls clock (master_file orch) (Some nm) of
                  None \<Rightarrow> None
                | Some existing \<Rightarrow>
                    (case run_try uuid4 scraper start_date end_date fc
                            (ScraperResult_init now uuid4 name
                               (dict_get (get_scraper_info scraper) ''website'' (PStr ''Unknown''))
                               existing) of
                       (exc, result, calls) \<Rightarrow>
                         let result' =
                               (case exc of
                                  None \<Rightarrow> result
                                | Some e \<Rightarrow>
                                    result\<lparr>errors := errors result @ [error_msg nm e]\<rparr>)
                         in Some (Inr result', Call_get_scraper_info # calls,
                                  orch\<lparr>results := AList.update nm result' (results orch)\<rparr>)))))"

section \<open>Merging results into the master file\<close>

text \<open>One iteration of the loop over \<^verbatim>\<open>new_results.items()\<close>.\<close>

definition merge_result ::
  "string \<times> ScraperResult \<Rightarrow> (string \<times> corpus_entry) list \<Rightarrow> (string \<times> corpus_entry) list" where
  "merge_result item rbs =
     (case item of (nm, result) \<Rightarrow>
        (case map_of rbs nm of
           None \<Rightarrow> AList.update nm (to_dict result) rbs
         | Some existing_scraper_data \<Rightarrow>
             let new_scraper_data = to_dict result;
                 anns = e_announcements existing_scraper_data @ e_announcements new_scraper_data;
                 fcs = e_full_content existing_scraper_data @ e_full_content new_scraper_data;
                 errs = e_errors existing_scraper_data @ e_errors new_scraper_data;
                 new_stats = e_statistics new_scraper_data
             in AList.update nm
                  (existing_scraper_data
                     \<lparr> e_scraper_info := e_scraper_info new_scraper_data,
                       e_statistics :=
                         [(''total_announcements'', SInt (int (length anns))),
                          (''total_full_content'', SInt (int (length fcs))),
                          (''total_errors'', SInt (int (length errs))),
                          (''last_scrape_new_items'', dict_get new_stats ''total_announcements'' (SInt 0)),
                          (''last_scrape_skipped'', dict_get new_stats ''skipped_duplicates'' (SInt 0)),
                          (''last_scrape_date'', SStr (si_scraped_at (e_scraper_info new_scraper_data)))],
                       e_announcements := anns,
                       e_full_content := fcs,
                       e_errors := errs \<rparr>)
                  rbs))"

definition recompute_summary :: "string \<Rightarrow> (string \<times> corpus_entry) list \<Rightarrow> (string \<times> stat) list" where
  "recompute_summary now rbs =
     [(''total_announcements'', SInt (int (sum_list (map (\<lambda>(k, data). length (e_announcements data)) rbs)))),
      (''total_full_content'', SInt (int (sum_list (map (\<lambda>(k, data). length (e_full_content data)) rbs)))),
      (''total_errors'', SInt (int (sum_list (map (\<lambda>(k, data). length (e_errors data)) rbs)))),
      (''scrapers_count'', SInt (int (length rbs))),
      (''last_updated'', SStr now)]"

text \<open>
  The store \<^verbatim>\<open>update_master_file\<close> builds from the loaded one. \<open>k\<close> is the number of clock
  reads the load made (two when it built the empty store, else none).
\<close>

definition merged_store :: "(nat \<Rightarrow> string) \<Rightarrow> nat \<Rightarrow> (string \<times> ScraperResult) list \<Rightarrow> store \<Rightarrow> store" where
  "merged_store clock k new_results existing_data =
     (let h = scraping_history existing_data;
          h' = h\<lparr> last_updated := clock k,
                  total_scrapes := Some ((case total_scrapes h of None \<Rightarrow> 0 | Some n \<Rightarrow> n) + 1) \<rparr>;
          rbs = fold merge_result new_results (results_by_scraper existing_data)
      in \<lparr> scraping_history = h',
           summary = recompute_summary (clock (Suc k)) rbs,
           results_by_scraper = rbs \<rparr>)"

text \<open>
  The save is \<^verbatim>\<open>open(path, 'w')\<close> followed by \<^verbatim>\<open>json.dump\<close> into the open file. Opening
  for writing creates or truncates the file itself, so the states the backing file goes
  through are: empty (on which \<^verbatim>\<open>json.load\<close> raises), then the whole document once it
  is written and the file closed.
\<close>

definition save_states :: "store \<Rightarrow> file_state list" where
  "save_states d = [Corrupt, Readable d]"

text \<open>
  \<^verbatim>\<open>update_master_file\<close>: the returned path, the orchestrator afterwards, and the states
  the backing file went through during the save.
\<close>

definition update_master_file ::
  "(nat \<Rightarrow> string) \<Rightarrow> (string \<times> ScraperResult) list \<Rightarrow> orchestrator
     \<Rightarrow> (string \<times> orchestrator \<times> file_state list) option" where
  "update_master_file clock new_results orch =
     (case load_existing_data clock (master_file orch) of
        None \<Rightarrow> None
      | Some existing_data \<Rightarrow>
          let k = (if master_file orch = Absent then 2 else 0);
              d = merged_store clock k new_results existing_data;
              states = save_states d
          in Some (master_file_path orch, orch\<lparr>master_file := last states\<rparr>, states))"

section \<open>Vocabulary of the statements\<close>

text \<open>
  Names for what the properties speak about: the url a listing record carries, whether
  the snapshot index \<open>E\<close> lets a record in, and what a Collector lists for a date range
  (nothing when its listing call raises).
\<close>

definition url_of :: "pydict \<Rightarrow> pyval" where
  "url_of a = dict_get a ''url'' (PStr '''')"

definition admitted :: "pyval set \<Rightarrow> pydict \<Rightarrow> bool" where
  "admitted E a = (\<not> (truthy (url_of a) \<and> url_of a \<in> E))"

definition listing_of :: "collector \<Rightarrow> string \<Rightarrow> string \<Rightarrow> pydict list" where
  "listing_of c sd ed = (case scrape_announcements c sd ed of Inl e \<Rightarrow> [] | Inr L \<Rightarrow> L)"

definition fetch_urls :: "collector \<Rightarrow> string \<Rightarrow> string \<Rightarrow> pyval set \<Rightarrow> pyval list" where
  "fetch_urls c sd ed E = new_urls_of (filter (admitted E) (listing_of c sd ed))"

text \<open>The exception texts and the content dicts a run ends with, read off the Collector.\<close>

definition run_errors :: "collector \<Rightarrow> string \<Rightarrow> string \<Rightarrow> bool \<Rightarrow> pyval set \<Rightarrow> string list" where
  "run_errors c sd ed fc E =
     (case scrape_announcements c sd ed of
        Inl e \<Rightarrow> [e]
      | Inr L \<Rightarrow>
          if fc \<and> fetch_urls c sd ed E \<noteq> []
          then (case scrape_full_content c (fetch_urls c sd ed E) of
                  Raised partial e \<Rightarrow> [e]
                | Returned data \<Rightarrow> [])
          else [])"

definition run_contents :: "collector \<Rightarrow> string \<Rightarrow> string \<Rightarrow> bool \<Rightarrow> pyval set \<Rightarrow> pydict list" where
  "run_contents c sd ed fc E =
     (if fc \<and> fetch_urls c sd ed E \<noteq> []
      then (case scrape_full_content c (fetch_urls c sd ed E) of
              Raised partial e \<Rightarrow> []
            | Returned data \<Rightarrow> data)
      else [])"

text \<open>The non-empty urls of the announcements a result holds.\<close>

definition admitted_urls :: "ScraperResult \<Rightarrow> pyval list" where
  "admitted_urls r = filter truthy (map a_url (announcements r))"

fun is_full_content_call :: "collector_call \<Rightarrow> bool" where
  "is_full_content_call (Call_scrape_full_content urls) = True"
| "is_full_content_call c = False"

text \<open>Projections of the outcome of \<^const>\<open>run_scraper\<close> and \<^const>\<open>update_master_file\<close>.\<close>

definition returned_result ::
  "((error + ScraperResult) \<times> collector_call list \<times> orchestrator) option \<Rightarrow> ScraperResult option" where
  "returned_result x = (case x of Some (Inr r, calls, orch') \<Rightarrow> Some r | _ \<Rightarrow> None)"

definition returned_contents ::
  "((error + ScraperResult) \<times> collector_call list \<times> orchestrator) option \<Rightarrow> pydict list option" where
  "returned_contents x = map_option (\<lambda>r. map c_raw_data (full_content r)) (returned_result x)"

definition calls_of ::
  "((error + ScraperResult) \<times> collector_call list \<times> orchestrator) option \<Rightarrow> collector_call list" where
  "calls_of x = (case x of Some (out, calls, orch') \<Rightarrow> calls | None \<Rightarrow> [])"

definition states_of ::
  "(string \<times> orchestrator \<times> file_state list) option \<Rightarrow> file_state list" where
  "states_of x = (case x of None \<Rightarrow> [] | Some (p, orch', states) \<Rightarrow> states)"

text \<open>
  What a load returns on a file that is not corrupt, and the deduplication index
  \<^const>\<open>get_existing_urls\<close> derives from the stored entries for a collector name.
\<close>

definition loaded_store :: "(nat \<Rightarrow> string) \<Rightarrow> file_state \<Rightarrow> store" where
  "loaded_store clock f = (case f of Readable d \<Rightarrow> d | _ \<Rightarrow> empty_store clock)"

definition stored_urls :: "(string \<times> corpus_entry) list \<Rightarrow> string \<Rightarrow> pyval set" where
  "stored_urls rbs n = (case map_of rbs n of None \<Rightarrow> {} | Some e \<Rightarrow> entry_urls e)"

definition index_of :: "(string \<times> corpus_entry) list \<Rightarrow> string \<Rightarrow> pyval set" where
  "index_of rbs nm =
     (if nm \<noteq> [] then stored_urls rbs nm
      else (\<Union>n \<in> set (map fst rbs). stored_urls rbs n))"

text \<open>
  The sequence \<^verbatim>\<open>main\<close> performs for one named collector: run it, then merge its result
  into the master file. \<open>rerun\<close> does this and then runs the same collector once more
  with the same date range.
\<close>

definition run_and_merge ::
  "(string \<Rightarrow> string) \<Rightarrow> (nat \<Rightarrow> string) \<Rightarrow> string \<Rightarrow> (nat \<Rightarrow> string) \<Rightarrow> (nat \<Rightarrow> string)
     \<Rightarrow> string \<Rightarrow> string \<Rightarrow> string \<Rightarrow> bool \<Rightarrow> orchestrator
     \<Rightarrow> (ScraperResult \<times> orchestrator) option" where
  "run_and_merge repr clock now uuid4 clock' nm sd ed fc orch =
     (case run_scraper repr clock now uuid4 nm sd ed fc orch of
        Some (Inr r, calls, orch1) \<Rightarrow>
          (case update_master_file clock' [(nm, r)] orch1 of
             Some (p, orch2, states) \<Rightarrow> Some (r, orch2)
           | None \<Rightarrow> None)
      | _ \<Rightarrow> None)"

definition rerun ::
  "(string \<Rightarrow> string) \<Rightarrow> (nat \<Rightarrow> string) \<Rightarrow> string \<Rightarrow> (nat \<Rightarrow> string) \<Rightarrow> (nat \<Rightarrow> string)
     \<Rightarrow> string \<Rightarrow> string \<Rightarrow> string \<Rightarrow> bool \<Rightarrow> orchestrator
     \<Rightarrow> (ScraperResult \<times> ScraperResult) option" where
  "rerun repr clock now uuid4 clock' nm sd ed fc orch =
     (case run_and_merge repr clock now uuid4 clock' nm sd ed fc orch of
        Some (r1, orch2) \<Rightarrow>
          (case run_scraper repr clock now uuid4 nm sd ed fc orch2 of
             Some (Inr r2, calls, orch3) \<Rightarrow> Some (r1, r2)
           | _ \<Rightarrow> None)
      | None \<Rightarrow> None)"

text \<open>
  Of a re-run: how many non-empty urls the first run admitted, how many announcements
  the second run admitted, and the second run's \<^verbatim>\<open>skipped_duplicates\<close>.
\<close>

definition rerun_counts :: "(ScraperResult \<times> ScraperResult) option \<Rightarrow> (nat \<times> nat \<times> nat) option" where
  "rerun_counts x =
     map_option (\<lambda>(r1, r2). (length (admitted_urls r1), length (announcements r2),
                              skipped_duplicates r2)) x"

text \<open>The urls of the announcements stored for a collector in the master file.\<close>

definition stored_announcement_urls :: "orchestrator \<Rightarrow> string \<Rightarrow> pyval list" where
  "stored_announcement_urls orch nm =
     (case master_file orch of
        Readable d \<Rightarrow>
          (case map_of (results_by_scraper d) nm of
             Some e \<Rightarrow> map a_url (e_announcements e)
           | None \<Rightarrow> [])
      | _ \<Rightarrow> [])"

definition stored_after :: "(ScraperResult \<times> orchestrator) option \<Rightarrow> string \<Rightarrow> pyval list option" where
  "stored_after x nm = (case x of None \<Rightarrow> None | Some (r, orch') \<Rightarrow> Some (stored_announcement_urls orch' nm))"

section \<open>Concrete collectors and stores\<close>

text \<open>
  Small inputs on which the theorems below are instantiated. \<open>quote_repr\<close> is Python's
  \<^verbatim>\<open>repr\<close> on strings without quotes, backslashes or control characters.
\<close>

definition quote_repr :: "string \<Rightarrow> string" where
  "quote_repr s = [CHR 0x27] @ s @ [CHR 0x27]"

definition clock0 :: "nat \<Rightarrow> string" where
  "clock0 k = ''2024-10-01T00:00:00''"

definition uuid0 :: "nat \<Rightarrow> string" where
  "uuid0 k = ''00000000-0000-4000-8000-000000000000''"

definition listing :: "string \<Rightarrow> pydict" where
  "listing u = [(''title'', PStr ''t''), (''url'', PStr u)]"

definition demo_collector :: "pydict list \<Rightarrow> fc_outcome \<Rightarrow> collector" where
  "demo_collector anns outcome =
     \<lparr> get_scraper_info = [(''name'', PStr ''X''), (''website'', PStr ''x.org'')],
       scrape_announcements = (\<lambda>start_date end_date. Inr anns),
       scrape_full_content = (\<lambda>urls. outcome),
       validate_date_format = (\<lambda>d. True) \<rparr>"

definition demo_orch :: "collector \<Rightarrow> file_state \<Rightarrow> orchestrator" where
  "demo_orch c f =
     \<lparr> loaded_scrapers = [(''x_scraper'', c)], results = [],
       master_file_path = ''scraped_data/master_scraped_data.json'',
       master_file = f \<rparr>"

definition page :: "string \<Rightarrow> pydict" where
  "page u = [(''url'', PStr u), (''full_content'', PStr ''text'')]"

text \<open>
  A Collector that lists \<open>u1\<close> and \<open>u2\<close> and whose full-content call raises after it has
  built the content dict of \<open>u1\<close>.
\<close>

definition failing_collector :: collector where
  "failing_collector = demo_collector [listing ''u1'', listing ''u2''] (Raised [page ''u1''] ''boom'')"

text \<open>
  A result that holds the announcement of \<open>u1\<close>, and the store that the merge of this
  result into the empty store writes.
\<close>

definition seed_result :: ScraperResult where
  "seed_result = snd (add_announcement uuid0 (listing ''u1'')
                   (ScraperResult_init ''now'' uuid0 (PStr ''X'') (PStr ''x.org'') {}))"

definition seeded_store :: store where
  "seeded_store = merged_store clock0 2 [(''x_scraper'', seed_result)] (empty_store clock0)"

section \<open>Loading the master file\<close>

lemma load_absent: "load_existing_data clock Absent = Some (empty_store clock)"
  by (subst load_existing_data.simps) simp

lemma load_readable: "load_existing_data clock (Readable d) = Some d"
  by (subst load_existing_data.simps) simp

lemma load_returns_not_corrupt: "load_existing_data clock f = Some d \<Longrightarrow> f \<noteq> Corrupt"
proof (rule load_existing_data.raw_induct[where P = "\<lambda>c f d. f \<noteq> Corrupt"])
  fix g :: "(nat \<Rightarrow> string) \<Rightarrow> file_state \<Rightarrow> store option" and c f d
  assume ih: "\<And>c f d. g c f = Some d \<Longrightarrow> f \<noteq> Corrupt"
    and eq: "(case f of Absent \<Rightarrow> Some (empty_store c) | Corrupt \<Rightarrow> g c f | Readable d \<Rightarrow> Some d) = Some d"
  show "f \<noteq> Corrupt"
  proof
    assume "f = Corrupt"
    with eq have "g c Corrupt = Some d" by simp
    from ih[OF this] show False by simp
  qed
qed

lemma load_corrupt: "load_existing_data clock Corrupt = None"
  using load_returns_not_corrupt[of clock Corrupt]
  by (cases "load_existing_data clock Corrupt") auto

text \<open>
  Claim C1. The claim asks that \<open>load\<close> on a backing file that exists but holds corrupt
  JSON signals a persistence error. The code catches the read failure, prints a warning
  and calls itself on the unchanged file: on a corrupt file the call never returns a
  value, neither a store nor an error, and neither does any operation that loads first.
\<close>

theorem load_existing_data_corrupt_never_returns:
  "load_existing_data clock Corrupt = None
   \<and> get_existing_urls clock Corrupt scraper_name_opt = None
   \<and> update_master_file clock new_results (demo_orch c Corrupt) = None"
  by (simp add: load_corrupt get_existing_urls_def update_master_file_def demo_orch_def)

section \<open>The success rate\<close>

lemma map_of_dict_update_all_2:
  "map_of (dict_update_all d [(k1, v1), (k2, v2)]) = ((map_of d)(k1 \<mapsto> v1))(k2 \<mapsto> v2)"
  by (simp add: dict_update_all_def update_conv')

text \<open>
  Claim C10. Computing \<^verbatim>\<open>success_rate\<close> never raises: for a result without announcements
  it is the integer 0, otherwise the number of full-content records divided by the number
  of announcements; the statistics update ends without an exception and stores that value
  under \<^verbatim>\<open>success_rate\<close>.
\<close>

theorem success_rate_total:
  "success_rate r
     = Inr (if announcements r = [] then SInt 0
            else SFloat (of_nat (length (full_content r)) / of_nat (length (announcements r))))
   \<and> fst (update_statistics start_date end_date r) = None
   \<and> map_of (statistics (snd (update_statistics start_date end_date r))) ''success_rate''
       = Some (if announcements r = [] then SInt 0
               else SFloat (of_nat (length (full_content r)) / of_nat (length (announcements r))))"
  by (simp add: success_rate_def true_div_def update_statistics_def map_of_dict_update_all_2)

section \<open>Running a collector that is not loaded\<close>

lemma join_contains: "x \<in> set xs \<Longrightarrow> \<exists>pre post. join sep xs = pre @ x @ post"
proof (induction xs)
  case Nil
  then show ?case by simp
next
  case (Cons y ys)
  show ?case
  proof (cases "x = y")
    case True
    have "join sep (y # ys) = [] @ x @ concat (map (\<lambda>z. sep @ z) ys)"
      using True by (simp add: join_def)
    then show ?thesis by blast
  next
    case False
    with Cons.prems have mem: "x \<in> set ys" by simp
    from Cons.IH[OF mem] obtain pre post where j: "join sep ys = pre @ x @ post" by blast
    from mem obtain z zs where ys: "ys = z # zs" by (cases ys) auto
    have "join sep (y # ys) = y @ sep @ join sep ys"
      by (simp add: join_def ys)
    then have "join sep (y # ys) = (y @ sep @ pre) @ x @ post" using j by simp
    then show ?thesis by blast
  qed
qed

lemma not_found_message_enumerates:
  assumes "n \<in> set available"
  shows "\<exists>pre post. not_found_message repr nm available = pre @ repr n @ post"
proof -
  from assms have "repr n \<in> set (map repr available)" by simp
  from join_contains[OF this] obtain pre post
    where "join '', '' (map repr available) = pre @ repr n @ post" by blast
  then have "not_found_message repr nm available
      = (''Scraper '' @ [CHR 0x27] @ nm @ [CHR 0x27] @ '' not found. Available: '' @ ''['' @ pre)
          @ repr n @ (post @ '']'')"
    by (simp add: not_found_message_def repr_list_def)
  then show ?thesis by blast
qed

text \<open>
  Claim C9. Running a name that is not a key of \<open>loaded_scrapers\<close> raises a
  \<^verbatim>\<open>ValueError\<close> whose message is the "not found" text followed by the list of the loaded
  names, so the \<^verbatim>\<open>repr\<close> of every loaded name occurs in it; no Collector is called and
  the orchestrator is left as it was.
\<close>

theorem run_scraper_unknown_name:
  assumes "map_of (loaded_scrapers orch) nm = None"
  shows "run_scraper repr clock now uuid4 nm start_date end_date fc orch
           = Some (Inl (ValueError (not_found_message repr nm (map fst (loaded_scrapers orch)))),
                   [], orch)
         \<and> (\<forall>n \<in> set (map fst (loaded_scrapers orch)).
               \<exists>pre post. not_found_message repr nm (map fst (loaded_scrapers orch))
                             = pre @ repr n @ post)"
  using assms
  by (auto simp: run_scraper_def dest: not_found_message_enumerates simp del: set_map)

theorem run_scraper_unknown_name_witness:
  "map_of (loaded_scrapers (demo_orch (demo_collector [] (Returned [])) Absent)) ''y_scraper'' = None
   \<and> run_scraper quote_repr clock0 ''now'' uuid0 ''y_scraper'' ''2024-09-01'' ''2024-09-30'' True
        (demo_orch (demo_collector [] (Returned [])) Absent)
       = Some (Inl (ValueError (not_found_message quote_repr ''y_scraper'' [''x_scraper''])), [],
               demo_orch (demo_collector [] (Returned [])) Absent)"
  using run_scraper_unknown_name
    [of "demo_orch (demo_collector [] (Returned [])) Absent" "''y_scraper''" quote_repr clock0
        "''now''" uuid0 "''2024-09-01''" "''2024-09-30''" True]
  by (simp add: demo_orch_def)

section \<open>What a run accumulates\<close>

text \<open>One call of \<^const>\<open>add_announcement\<close>, field by field.\<close>

lemma truthy_get_None: "truthy (dict_get a k PNone) = truthy (dict_get a k (PStr ''''))"
  by (simp add: dict_get_def split: option.splits)

lemma add_announcement_fst: "fst (add_announcement uuid4 a r) = admitted (existing_urls r) a"
  by (simp add: add_announcement_def admitted_def url_of_def Let_def)

lemma add_announcement_existing: "existing_urls (snd (add_announcement uuid4 a r)) = existing_urls r"
  by (simp add: add_announcement_def Let_def)

lemma add_announcement_skipped:
  "skipped_duplicates (snd (add_announcement uuid4 a r))
     = skipped_duplicates r + (if admitted (existing_urls r) a then 0 else 1)"
  by (simp add: add_announcement_def admitted_def url_of_def Let_def)

lemma add_announcement_raw:
  "map a_raw_data (announcements (snd (add_announcement uuid4 a r)))
     = map a_raw_data (announcements r) @ (if admitted (existing_urls r) a then [a] else [])"
  by (simp add: add_announcement_def admitted_def url_of_def Let_def standardize_announcement_def)

lemma add_announcement_urls:
  "map a_url (announcements (snd (add_announcement uuid4 a r)))
     = map a_url (announcements r) @ (if admitted (existing_urls r) a then [url_of a] else [])"
  by (simp add: add_announcement_def admitted_def url_of_def Let_def standardize_announcement_def)

lemma add_announcement_others:
  "full_content (snd (add_announcement uuid4 a r)) = full_content r"
  "errors (snd (add_announcement uuid4 a r)) = errors r"
  "statistics (snd (add_announcement uuid4 a r)) = statistics r"
  by (simp_all add: add_announcement_def Let_def)

text \<open>The listing loop, by induction on the listing.\<close>

lemma admit_all_step:
  "admit_all uuid4 (a # rest) (r, acc)
     = admit_all uuid4 rest (snd (add_announcement uuid4 a r),
                             acc @ (if fst (add_announcement uuid4 a r) then [a] else []))"
  by (cases "add_announcement uuid4 a r") (auto split: bool.splits)

lemma admit_all_new:
  "snd (admit_all uuid4 anns (r, acc)) = acc @ filter (admitted (existing_urls r)) anns"
proof (induction anns arbitrary: r acc)
  case Nil then show ?case by simp
next
  case (Cons a rest)
  show ?case
    by (simp only: admit_all_step Cons.IH add_announcement_existing add_announcement_fst) simp
qed

lemma admit_all_existing:
  "existing_urls (fst (admit_all uuid4 anns (r, acc))) = existing_urls r"
proof (induction anns arbitrary: r acc)
  case Nil then show ?case by simp
next
  case (Cons a rest)
  show ?case by (simp only: admit_all_step Cons.IH add_announcement_existing)
qed

lemma admit_all_skipped:
  "skipped_duplicates (fst (admit_all uuid4 anns (r, acc)))
     = skipped_duplicates r + length (filter (\<lambda>a. \<not> admitted (existing_urls r) a) anns)"
proof (induction anns arbitrary: r acc)
  case Nil then show ?case by simp
next
  case (Cons a rest)
  show ?case
    by (simp only: admit_all_step Cons.IH add_announcement_existing add_announcement_skipped) simp
qed

lemma admit_all_raw:
  "map a_raw_data (announcements (fst (admit_all uuid4 anns (r, acc))))
     = map a_raw_data (announcements r) @ filter (admitted (existing_urls r)) anns"
proof (induction anns arbitrary: r acc)
  case Nil then show ?case by simp
next
  case (Cons a rest)
  show ?case
    by (simp only: admit_all_step Cons.IH add_announcement_existing add_announcement_raw) simp
qed

lemma admit_all_urls:
  "map a_url (announcements (fst (admit_all uuid4 anns (r, acc))))
     = map a_url (announcements r) @ map url_of (filter (admitted (existing_urls r)) anns)"
proof (induction anns arbitrary: r acc)
  case Nil then show ?case by simp
next
  case (Cons a rest)
  show ?case
    by (simp only: admit_all_step Cons.IH add_announcement_existing add_announcement_urls) simp
qed

lemma admit_all_others:
  "full_content (fst (admit_all uuid4 anns (r, acc))) = full_content r"
  "errors (fst (admit_all uuid4 anns (r, acc))) = errors r"
  "statistics (fst (admit_all uuid4 anns (r, acc))) = statistics r"
proof (induction anns arbitrary: r acc)
  case Nil
  { case 1 show ?case by simp }
  { case 2 show ?case by simp }
  { case 3 show ?case by simp }
next
  case (Cons a rest)
  { case 1 show ?case by (simp only: admit_all_step Cons.IH add_announcement_others) }
  { case 2 show ?case by (simp only: admit_all_step Cons.IH add_announcement_others) }
  { case 3 show ?case by (simp only: admit_all_step Cons.IH add_announcement_others) }
qed

lemma new_urls_of_filter:
  "new_urls_of anns = filter truthy (map url_of anns)"
  by (induction anns) (simp_all add: new_urls_of_def url_of_def truthy_get_None)


text \<open>The statistics update and the full-content loop leave the listing phase alone.\<close>

lemma update_statistics_eq:
  "update_statistics sd ed r =
     (None, r\<lparr>statistics := dict_update_all (statistics r)
        [(''date_range'', SStr (sd @ '' to '' @ ed)),
         (''success_rate'', if announcements r = [] then SInt 0
            else SFloat (of_nat (length (full_content r)) / of_nat (length (announcements r))))]\<rparr>)"
  by (simp add: update_statistics_def success_rate_def true_div_def)

lemma fold_add_full_content_fields:
  "announcements (fold (add_full_content uuid4) data r) = announcements r"
  "existing_urls (fold (add_full_content uuid4) data r) = existing_urls r"
  "skipped_duplicates (fold (add_full_content uuid4) data r) = skipped_duplicates r"
  "errors (fold (add_full_content uuid4) data r) = errors r"
  "map c_raw_data (full_content (fold (add_full_content uuid4) data r))
     = map c_raw_data (full_content r) @ data"
  by (induction data arbitrary: r) (simp_all add: add_full_content_def standardize_content_def)

lemma run_try_listing_raises:
  "scrape_announcements c sd ed = Inl e \<Longrightarrow>
   run_try uuid4 c sd ed fc r0 = (Some e, r0, [Call_scrape_announcements sd ed])"
  by (simp add: run_try_def)

lemma new_urls_nonempty: "new_urls_of new \<noteq> [] \<Longrightarrow> new \<noteq> []"
  by (auto simp: new_urls_of_def)

lemma run_try_listing_returns:
  assumes "scrape_announcements c sd ed = Inr L"
  shows "run_try uuid4 c sd ed fc r0 =
     (let r1 = fst (admit_all uuid4 L (r0, []));
          urls = new_urls_of (filter (admitted (existing_urls r0)) L)
      in if fc \<and> urls \<noteq> []
         then (case scrape_full_content c urls of
                 Raised done e \<Rightarrow>
                   (Some e, r1, [Call_scrape_announcements sd ed, Call_scrape_full_content urls])
               | Returned data \<Rightarrow>
                   (None, snd (update_statistics sd ed (fold (add_full_content uuid4) data r1)),
                    [Call_scrape_announcements sd ed, Call_scrape_full_content urls]))
         else (None, snd (update_statistics sd ed r1), [Call_scrape_announcements sd ed]))"
proof -
  have new: "snd (admit_all uuid4 L (r0, [])) = filter (admitted (existing_urls r0)) L"
    by (simp add: admit_all_new)
  show ?thesis
    using new new_urls_nonempty[of "filter (admitted (existing_urls r0)) L"]
    by (auto simp: run_try_def assms Let_def update_statistics_eq split_beta
             split: fc_outcome.splits)
qed


text \<open>
  A run of a loaded collector whose info has a name, on a file that loads, returns a
  result; its fields are determined by the index \<open>E\<close> and the Collector.
\<close>

lemma run_scraper_loaded:
  assumes c: "map_of (loaded_scrapers orch) nm = Some c"
    and n: "map_of (get_scraper_info c) ''name'' = Some name"
    and E: "get_existing_urls clock (master_file orch) (Some nm) = Some E"
  obtains r where
    "run_scraper repr clock now uuid4 nm sd ed fc orch
       = Some (Inr r,
               Call_get_scraper_info # Call_scrape_announcements sd ed
                 # (if fc \<and> fetch_urls c sd ed E \<noteq> []
                    then [Call_scrape_full_content (fetch_urls c sd ed E)] else []),
               orch\<lparr>results := AList.update nm r (results orch)\<rparr>)"
    and "existing_urls r = E"
    and "map a_raw_data (announcements r) = filter (admitted E) (listing_of c sd ed)"
    and "map a_url (announcements r) = map url_of (filter (admitted E) (listing_of c sd ed))"
    and "skipped_duplicates r = length (filter (\<lambda>a. \<not> admitted E a) (listing_of c sd ed))"
    and "map c_raw_data (full_content r) = run_contents c sd ed fc E"
    and "errors r = map (error_msg nm) (run_errors c sd ed fc E)"
proof (cases "scrape_announcements c sd ed")
  case (Inl e)
  let ?r0 = "ScraperResult_init now uuid4 name (dict_get (get_scraper_info c) ''website'' (PStr ''Unknown'')) E"
  let ?r = "?r0\<lparr>errors := errors ?r0 @ [error_msg nm e]\<rparr>"
  have L: "listing_of c sd ed = []" by (simp add: listing_of_def Inl)
  have U: "fetch_urls c sd ed E = []" by (simp add: fetch_urls_def L new_urls_of_def)
  show ?thesis
  proof (rule that[of ?r])
    show "run_scraper repr clock now uuid4 nm sd ed fc orch
       = Some (Inr ?r,
               Call_get_scraper_info # Call_scrape_announcements sd ed
                 # (if fc \<and> fetch_urls c sd ed E \<noteq> []
                    then [Call_scrape_full_content (fetch_urls c sd ed E)] else []),
               orch\<lparr>results := AList.update nm ?r (results orch)\<rparr>)"
      by (simp add: run_scraper_def c n E run_try_listing_raises[OF Inl] U Let_def)
  qed (simp_all add: ScraperResult_init_def L U run_contents_def run_errors_def Inl)
next
  case (Inr L)
  let ?r0 = "ScraperResult_init now uuid4 name (dict_get (get_scraper_info c) ''website'' (PStr ''Unknown'')) E"
  have E0: "existing_urls ?r0 = E" by (simp add: ScraperResult_init_def)
  have LL: "listing_of c sd ed = L" by (simp add: listing_of_def Inr)
  have U: "fetch_urls c sd ed E = new_urls_of (filter (admitted E) L)" by (simp add: fetch_urls_def LL)
  let ?r1 = "fst (admit_all uuid4 L (?r0, []))"
  have r1: "existing_urls ?r1 = E"
    "map a_raw_data (announcements ?r1) = filter (admitted E) L"
    "map a_url (announcements ?r1) = map url_of (filter (admitted E) L)"
    "skipped_duplicates ?r1 = length (filter (\<lambda>a. \<not> admitted E a) L)"
    "full_content ?r1 = []" "errors ?r1 = []"
    by (simp_all add: admit_all_existing admit_all_raw admit_all_urls admit_all_skipped
          admit_all_others E0) (simp_all add: ScraperResult_init_def)
  obtain exc r2 calls where t: "run_try uuid4 c sd ed fc ?r0 = (exc, r2, calls)"
    by (cases "run_try uuid4 c sd ed fc ?r0") auto
  let ?r = "(case exc of None \<Rightarrow> r2 | Some e \<Rightarrow> r2\<lparr>errors := errors r2 @ [error_msg nm e]\<rparr>)"
  have run: "run_scraper repr clock now uuid4 nm sd ed fc orch
       = Some (Inr ?r, Call_get_scraper_info # calls, orch\<lparr>results := AList.update nm ?r (results orch)\<rparr>)"
    by (simp add: run_scraper_def c n E t Let_def)
  note t' = t[unfolded run_try_listing_returns[OF Inr] Let_def E0 U[symmetric]]
  show ?thesis
  proof (cases "fc \<and> fetch_urls c sd ed E \<noteq> []")
    case False
    with t' have *: "exc = None" "r2 = snd (update_statistics sd ed ?r1)" "calls = [Call_scrape_announcements sd ed]"
      by auto
    show ?thesis
      by (rule that[of ?r])
         (use run False r1 in \<open>auto simp: * update_statistics_eq LL run_contents_def run_errors_def Inr\<close>)
  next
    case True
    show ?thesis
    proof (cases "scrape_full_content c (fetch_urls c sd ed E)")
      case (Returned data)
      with t' True have *: "exc = None"
        "r2 = snd (update_statistics sd ed (fold (add_full_content uuid4) data ?r1))"
        "calls = [Call_scrape_announcements sd ed, Call_scrape_full_content (fetch_urls c sd ed E)]"
        by auto
      show ?thesis
        by (rule that[of ?r])
           (use run True r1 Returned in \<open>auto simp: * update_statistics_eq LL run_contents_def
               run_errors_def Inr fold_add_full_content_fields\<close>)
    next
      case (Raised partial e)
      with t' True have *: "exc = Some e" "r2 = ?r1"
        "calls = [Call_scrape_announcements sd ed, Call_scrape_full_content (fetch_urls c sd ed E)]"
        by auto
      show ?thesis
        by (rule that[of ?r])
           (use run True r1 Raised in \<open>auto simp: * LL run_contents_def run_errors_def Inr\<close>)
    qed
  qed
qed


lemma get_existing_urls_loadable:
  "f \<noteq> Corrupt \<Longrightarrow> \<exists>E. get_existing_urls clock f nmo = Some E"
  by (cases f) (simp_all add: get_existing_urls_def load_absent load_readable)

lemma admitted_not_existing:
  "set (new_urls_of (filter (admitted E) L)) \<inter> E = {}"
  by (auto simp: new_urls_of_filter admitted_def)


section \<open>The full-content phase\<close>

text \<open>
  Claim C7. In a run with full-content fetching enabled, \<^verbatim>\<open>scrape_full_content\<close> is
  called at most once: exactly once, with the list of the non-empty urls of the
  announcements the run admitted, when that list is not empty, and not at all when it is
  empty (or when the run raises before the listing). None of the urls passed is in the
  deduplication index the run started from. The run is made on a master file that loads.
\<close>

theorem full_content_called_once_on_new_urls:
  assumes "master_file orch \<noteq> Corrupt"
  shows "\<exists>out calls orch'.
           run_scraper repr clock now uuid4 nm sd ed True orch = Some (out, calls, orch')
           \<and> (case out of
                Inl e \<Rightarrow> filter is_full_content_call calls = []
              | Inr r \<Rightarrow>
                  filter is_full_content_call calls
                    = (if admitted_urls r = [] then []
                       else [Call_scrape_full_content (admitted_urls r)])
                  \<and> get_existing_urls clock (master_file orch) (Some nm) = Some (existing_urls r)
                  \<and> set (admitted_urls r) \<inter> existing_urls r = {})"
proof (cases "map_of (loaded_scrapers orch) nm")
  case None
  then show ?thesis by (simp add: run_scraper_def)
next
  case (Some c)
  show ?thesis
  proof (cases "map_of (get_scraper_info c) ''name''")
    case None
    then show ?thesis by (simp add: run_scraper_def Some)
  next
    case name: (Some name)
    from get_existing_urls_loadable[OF assms] obtain E
      where E: "get_existing_urls clock (master_file orch) (Some nm) = Some E" by blast
    from run_scraper_loaded[OF Some name E, of repr now uuid4 sd ed True]
    obtain r where r:
      "run_scraper repr clock now uuid4 nm sd ed True orch
         = Some (Inr r,
                 Call_get_scraper_info # Call_scrape_announcements sd ed
                   # (if True \<and> fetch_urls c sd ed E \<noteq> []
                      then [Call_scrape_full_content (fetch_urls c sd ed E)] else []),
                 orch\<lparr>results := AList.update nm r (results orch)\<rparr>)"
      "existing_urls r = E"
      "map a_url (announcements r) = map url_of (filter (admitted E) (listing_of c sd ed))"
      by blast
    have u: "admitted_urls r = fetch_urls c sd ed E"
      by (simp add: admitted_urls_def r(3) fetch_urls_def new_urls_of_filter)
    have d: "set (fetch_urls c sd ed E) \<inter> E = {}"
      by (simp add: fetch_urls_def admitted_not_existing)
    show ?thesis
      using r(1) d by (simp add: u r(2) E)
  qed
qed

theorem full_content_called_once_on_new_urls_witness:
  "master_file (demo_orch (demo_collector [listing ''u1'', listing ''''] (Returned [page ''u1''])) Absent)
     \<noteq> Corrupt
   \<and> calls_of (run_scraper quote_repr clock0 ''now'' uuid0 ''x_scraper'' ''2024-09-01'' ''2024-09-30'' True
        (demo_orch (demo_collector [listing ''u1'', listing ''''] (Returned [page ''u1''])) Absent))
     = [Call_get_scraper_info, Call_scrape_announcements ''2024-09-01'' ''2024-09-30'',
        Call_scrape_full_content [PStr ''u1'']]
   \<and> (\<exists>out calls orch'.
         run_scraper quote_repr clock0 ''now'' uuid0 ''x_scraper'' ''2024-09-01'' ''2024-09-30'' True
             (demo_orch (demo_collector [listing ''u1'', listing ''''] (Returned [page ''u1''])) Absent)
           = Some (out, calls, orch')
         \<and> (case out of
              Inl e \<Rightarrow> filter is_full_content_call calls = []
            | Inr r \<Rightarrow>
                filter is_full_content_call calls
                  = (if admitted_urls r = [] then []
                     else [Call_scrape_full_content (admitted_urls r)])
                \<and> get_existing_urls clock0
                      (master_file (demo_orch (demo_collector [listing ''u1'', listing '''']
                                                 (Returned [page ''u1''])) Absent))
                      (Some ''x_scraper'')
                    = Some (existing_urls r)
                \<and> set (admitted_urls r) \<inter> existing_urls r = {}))"
proof -
  let ?orch = "demo_orch (demo_collector [listing ''u1'', listing ''''] (Returned [page ''u1''])) Absent"
  have h: "master_file ?orch \<noteq> Corrupt" by (simp add: demo_orch_def)
  note t = full_content_called_once_on_new_urls[OF h, of quote_repr clock0 "''now''" uuid0
         "''x_scraper''" "''2024-09-01''" "''2024-09-30''"]
  have c: "calls_of (run_scraper quote_repr clock0 ''now'' uuid0 ''x_scraper'' ''2024-09-01'' ''2024-09-30''
             True ?orch)
     = [Call_get_scraper_info, Call_scrape_announcements ''2024-09-01'' ''2024-09-30'',
        Call_scrape_full_content [PStr ''u1'']]"
    by (simp add: calls_of_def run_scraper_def demo_orch_def demo_collector_def
          get_existing_urls_def load_absent empty_store_def run_try_def listing_def
          add_announcement_def Let_def dict_get_def new_urls_of_def ScraperResult_init_def
          update_statistics_eq)
  show ?thesis by (intro conjI h c t)
qed

text \<open>
  Claim C6, as amended. When the listing returns, full-content fetching is enabled and
  \<^verbatim>\<open>scrape_full_content\<close> raises on the new urls, the run still returns a result (the
  exception does not leave \<^verbatim>\<open>run_scraper\<close>): it holds every announcement admitted in the
  listing phase and exactly one error, made from the exception's text, and it holds no
  content record, whatever the Collector had built before it raised.
\<close>

theorem full_content_failure_keeps_listing:
  assumes "map_of (loaded_scrapers orch) nm = Some c"
    and "map_of (get_scraper_info c) ''name'' = Some name"
    and "get_existing_urls clock (master_file orch) (Some nm) = Some E"
    and "scrape_announcements c sd ed = Inr L"
    and "new_urls_of (filter (admitted E) L) \<noteq> []"
    and "scrape_full_content c (new_urls_of (filter (admitted E) L)) = Raised partial e"
  shows "\<exists>r calls orch'.
           run_scraper repr clock now uuid4 nm sd ed True orch = Some (Inr r, calls, orch')
           \<and> full_content r = []
           \<and> errors r = [error_msg nm e]
           \<and> map a_raw_data (announcements r) = filter (admitted E) L"
proof -
  have LL: "listing_of c sd ed = L" by (simp add: listing_of_def assms(4))
  have U: "fetch_urls c sd ed E = new_urls_of (filter (admitted E) L)"
    by (simp add: fetch_urls_def LL)
  from run_scraper_loaded[OF assms(1,2,3), of repr now uuid4 sd ed True]
  obtain r where r:
    "run_scraper repr clock now uuid4 nm sd ed True orch
       = Some (Inr r,
               Call_get_scraper_info # Call_scrape_announcements sd ed
                 # (if True \<and> fetch_urls c sd ed E \<noteq> []
                    then [Call_scrape_full_content (fetch_urls c sd ed E)] else []),
               orch\<lparr>results := AList.update nm r (results orch)\<rparr>)"
    "map a_raw_data (announcements r) = filter (admitted E) (listing_of c sd ed)"
    "map c_raw_data (full_content r) = run_contents c sd ed True E"
    "errors r = map (error_msg nm) (run_errors c sd ed True E)"
    by blast
  have "full_content r = []"
    using r(3) by (simp add: run_contents_def U assms(5,6))
  moreover have "errors r = [error_msg nm e]"
    using r(4) by (simp add: run_errors_def U assms(4,5,6))
  ultimately show ?thesis using r(1,2) by (simp add: LL)
qed

theorem full_content_failure_keeps_listing_witness:
  "map_of (loaded_scrapers (demo_orch failing_collector Absent)) ''x_scraper'' = Some failing_collector
   \<and> map_of (get_scraper_info failing_collector) ''name'' = Some (PStr ''X'')
   \<and> get_existing_urls clock0 (master_file (demo_orch failing_collector Absent)) (Some ''x_scraper'')
       = Some {}
   \<and> scrape_announcements failing_collector ''2024-09-01'' ''2024-09-30''
       = Inr [listing ''u1'', listing ''u2'']
   \<and> new_urls_of (filter (admitted {}) [listing ''u1'', listing ''u2'']) \<noteq> []
   \<and> scrape_full_content failing_collector
         (new_urls_of (filter (admitted {}) [listing ''u1'', listing ''u2'']))
       = Raised [page ''u1''] ''boom''
   \<and> (\<exists>r calls orch'.
         run_scraper quote_repr clock0 ''now'' uuid0 ''x_scraper'' ''2024-09-01'' ''2024-09-30'' True
             (demo_orch failing_collector Absent)
           = Some (Inr r, calls, orch')
         \<and> full_content r = []
         \<and> errors r = [error_msg ''x_scraper'' ''boom'']
         \<and> map a_raw_data (announcements r)
             = filter (admitted {}) [listing ''u1'', listing ''u2''])"
proof -
  let ?orch = "demo_orch failing_collector Absent"
  let ?L = "[listing ''u1'', listing ''u2'']"
  have h1: "map_of (loaded_scrapers ?orch) ''x_scraper'' = Some failing_collector"
    by (simp add: demo_orch_def)
  have h2: "map_of (get_scraper_info failing_collector) ''name'' = Some (PStr ''X'')"
    by (simp add: failing_collector_def demo_collector_def)
  have h3: "get_existing_urls clock0 (master_file ?orch) (Some ''x_scraper'') = Some {}"
    by (simp add: demo_orch_def get_existing_urls_def load_absent empty_store_def)
  have h4: "scrape_announcements failing_collector ''2024-09-01'' ''2024-09-30'' = Inr ?L"
    by (simp add: failing_collector_def demo_collector_def)
  have h5: "new_urls_of (filter (admitted {}) ?L) \<noteq> []"
    by (simp add: new_urls_of_def admitted_def listing_def dict_get_def)
  have h6: "scrape_full_content failing_collector (new_urls_of (filter (admitted {}) ?L))
              = Raised [page ''u1''] ''boom''"
    by (simp add: failing_collector_def demo_collector_def)
  from full_content_failure_keeps_listing[OF h1 h2 h3 h4 h5 h6, of quote_repr "''now''" uuid0]
  show ?thesis using h1 h2 h3 h4 h5 h6 by blast
qed

text \<open>
  Claim C6, as stated, fails: the Collector below raises after it has built the content
  dict of \<open>u1\<close>; the run calls it on \<open>u1\<close> and \<open>u2\<close> and returns a result without any
  content record.
\<close>

theorem full_content_lost_on_raise_counterexample:
  "scrape_full_content failing_collector [PStr ''u1'', PStr ''u2''] = Raised [page ''u1''] ''boom''
   \<and> calls_of (run_scraper quote_repr clock0 ''now'' uuid0 ''x_scraper'' ''2024-09-01'' ''2024-09-30'' True
        (demo_orch failing_collector Absent))
     = [Call_get_scraper_info, Call_scrape_announcements ''2024-09-01'' ''2024-09-30'',
        Call_scrape_full_content [PStr ''u1'', PStr ''u2'']]
   \<and> returned_contents (run_scraper quote_repr clock0 ''now'' uuid0 ''x_scraper'' ''2024-09-01'' ''2024-09-30'' True
        (demo_orch failing_collector Absent))
     = Some []"
  by (simp add: returned_contents_def returned_result_def calls_of_def run_scraper_def demo_orch_def
        failing_collector_def demo_collector_def get_existing_urls_def load_absent empty_store_def
        run_try_def listing_def add_announcement_def Let_def dict_get_def new_urls_of_def
        ScraperResult_init_def)


section \<open>Merge and save\<close>

lemma load_loadable: "f \<noteq> Corrupt \<Longrightarrow> load_existing_data clock f = Some (loaded_store clock f)"
  by (cases f) (simp_all add: load_absent load_readable loaded_store_def)

lemma update_master_file_loadable:
  assumes "master_file orch \<noteq> Corrupt"
  shows "update_master_file clock new_results orch
     = Some (master_file_path orch,
             orch\<lparr>master_file := Readable (merged_store clock (if master_file orch = Absent then 2 else 0)
                                               new_results (loaded_store clock (master_file orch)))\<rparr>,
             [Corrupt, Readable (merged_store clock (if master_file orch = Absent then 2 else 0)
                                               new_results (loaded_store clock (master_file orch)))])"
  by (simp add: update_master_file_def load_loadable[OF assms] save_states_def Let_def)

lemma summary_merged:
  "map_of (summary (merged_store clock k nr d)) ''total_announcements''
     = Some (SInt (int (sum_list (map (\<lambda>(k, data). length (e_announcements data))
                                   (results_by_scraper (merged_store clock k nr d))))))"
  "map_of (summary (merged_store clock k nr d)) ''total_full_content''
     = Some (SInt (int (sum_list (map (\<lambda>(k, data). length (e_full_content data))
                                   (results_by_scraper (merged_store clock k nr d))))))"
  "map_of (summary (merged_store clock k nr d)) ''total_errors''
     = Some (SInt (int (sum_list (map (\<lambda>(k, data). length (e_errors data))
                                   (results_by_scraper (merged_store clock k nr d))))))"
  by (simp_all add: merged_store_def recompute_summary_def Let_def)


text \<open>
  Claim C3. A merge on a master file that loads completes and leaves a store in the file
  whose summary agrees with its entries: \<^verbatim>\<open>total_announcements\<close>, \<^verbatim>\<open>total_full_content\<close>
  and \<^verbatim>\<open>total_errors\<close> are the sums of the lengths of the three lists over all entries
  of \<^verbatim>\<open>results_by_scraper\<close>. The store before the merge and the results merged are
  arbitrary, so this holds along any sequence of merges and for new collectors.
\<close>

theorem summary_recomputed_after_merge:
  assumes "master_file orch \<noteq> Corrupt"
  shows "\<exists>p orch' states d.
           update_master_file clock new_results orch = Some (p, orch', states)
           \<and> master_file orch' = Readable d
           \<and> map_of (summary d) ''total_announcements''
               = Some (SInt (int (sum_list (map (\<lambda>(k, data). length (e_announcements data))
                                             (results_by_scraper d)))))
           \<and> map_of (summary d) ''total_full_content''
               = Some (SInt (int (sum_list (map (\<lambda>(k, data). length (e_full_content data))
                                             (results_by_scraper d)))))
           \<and> map_of (summary d) ''total_errors''
               = Some (SInt (int (sum_list (map (\<lambda>(k, data). length (e_errors data))
                                             (results_by_scraper d)))))"
  by (simp add: update_master_file_loadable[OF assms] summary_merged)

theorem summary_recomputed_after_merge_witness:
  "master_file (demo_orch (demo_collector [] (Returned [])) Absent) \<noteq> Corrupt
   \<and> (\<exists>p orch' states d.
         update_master_file clock0 [(''x_scraper'', seed_result)]
             (demo_orch (demo_collector [] (Returned [])) Absent)
           = Some (p, orch', states)
         \<and> master_file orch' = Readable d
         \<and> map_of (summary d) ''total_announcements''
             = Some (SInt (int (sum_list (map (\<lambda>(k, data). length (e_announcements data))
                                           (results_by_scraper d)))))
         \<and> map_of (summary d) ''total_full_content''
             = Some (SInt (int (sum_list (map (\<lambda>(k, data). length (e_full_content data))
                                           (results_by_scraper d)))))
         \<and> map_of (summary d) ''total_errors''
             = Some (SInt (int (sum_list (map (\<lambda>(k, data). length (e_errors data))
                                           (results_by_scraper d))))))"
proof -
  have h: "master_file (demo_orch (demo_collector [] (Returned [])) Absent) \<noteq> Corrupt"
    by (simp add: demo_orch_def)
  note t = summary_recomputed_after_merge[OF h, of clock0 "[(''x_scraper'', seed_result)]"]
  show ?thesis by (intro conjI h t)
qed

text \<open>
  Claim C8, as amended. The save overwrites the backing file in place: a merge on a master
  file that loads opens the file for writing, which empties it, and then writes the merged
  store into it; no temporary file and no rename are involved. Once the merge has
  completed, the backing file holds the merged store and a load returns it.
\<close>

theorem save_overwrites_in_place:
  assumes "master_file orch \<noteq> Corrupt"
  shows "\<exists>orch' d.
           update_master_file clock new_results orch
             = Some (master_file_path orch, orch', [Corrupt, Readable d])
           \<and> master_file orch' = Readable d
           \<and> load_existing_data clock' (master_file orch') = Some d
           \<and> d = merged_store clock (if master_file orch = Absent then 2 else 0) new_results
                   (loaded_store clock (master_file orch))"
  by (simp add: update_master_file_loadable[OF assms] load_readable)

theorem save_overwrites_in_place_witness:
  "master_file (demo_orch (demo_collector [] (Returned [])) (Readable seeded_store)) \<noteq> Corrupt
   \<and> (\<exists>orch' d.
         update_master_file clock0 []
             (demo_orch (demo_collector [] (Returned [])) (Readable seeded_store))
           = Some (master_file_path (demo_orch (demo_collector [] (Returned [])) (Readable seeded_store)),
                   orch', [Corrupt, Readable d])
         \<and> master_file orch' = Readable d
         \<and> load_existing_data clock0 (master_file orch') = Some d
         \<and> d = merged_store clock0
                 (if master_file (demo_orch (demo_collector [] (Returned [])) (Readable seeded_store))
                     = Absent then 2 else 0)
                 []
                 (loaded_store clock0
                    (master_file (demo_orch (demo_collector [] (Returned [])) (Readable seeded_store)))))"
proof -
  have h: "master_file (demo_orch (demo_collector [] (Returned [])) (Readable seeded_store)) \<noteq> Corrupt"
    by (simp add: demo_orch_def)
  note t = save_overwrites_in_place[OF h, of clock0 "[]" clock0]
  show ?thesis by (intro conjI h t)
qed

text \<open>
  Claim C8, as stated, fails: the backing file below holds a store, and the first state
  it is in during the merge-and-save step is the emptied file, which does not load. A
  crash then, or a reader then, finds neither the old store nor the new one.
\<close>

theorem save_truncates_first_counterexample:
  "master_file (demo_orch (demo_collector [] (Returned [])) (Readable seeded_store))
     = Readable seeded_store
   \<and> hd (states_of (update_master_file clock0 []
            (demo_orch (demo_collector [] (Returned [])) (Readable seeded_store))))
     = Corrupt
   \<and> load_existing_data clock0
        (hd (states_of (update_master_file clock0 []
               (demo_orch (demo_collector [] (Returned [])) (Readable seeded_store)))))
     = None"
  by (simp add: states_of_def update_master_file_def demo_orch_def load_readable load_corrupt
        save_states_def Let_def)


section \<open>Running again after a merge\<close>

text \<open>The index a run starts from, and how a merge extends it.\<close>

lemma collect_urls_eq:
  "collect_urls d names acc = acc \<union> (\<Union>n \<in> set names. stored_urls (results_by_scraper d) n)"
  by (induction names arbitrary: acc) (auto simp: stored_urls_def split: option.splits)

lemma get_existing_urls_index:
  "f \<noteq> Corrupt \<Longrightarrow>
   get_existing_urls clock f (Some nm) = Some (index_of (results_by_scraper (loaded_store clock f)) nm)"
  by (simp add: get_existing_urls_def load_loadable collect_urls_eq index_of_def Let_def)

lemma loaded_store_rbs:
  "results_by_scraper (loaded_store clock f) = results_by_scraper (loaded_store clock' f)"
  by (cases f) (simp_all add: loaded_store_def empty_store_def)

lemma map_of_merge_result:
  "map_of (merge_result (nm, r) rbs) n =
     (if n = nm
      then Some (case map_of rbs nm of
                   None \<Rightarrow> to_dict r
                 | Some e \<Rightarrow> e\<lparr> e_scraper_info := e_scraper_info (to_dict r),
                       e_statistics :=
                         [(''total_announcements'', SInt (int (length (e_announcements e @ announcements r)))),
                          (''total_full_content'', SInt (int (length (e_full_content e @ full_content r)))),
                          (''total_errors'', SInt (int (length (e_errors e @ errors r)))),
                          (''last_scrape_new_items'', dict_get (e_statistics (to_dict r)) ''total_announcements'' (SInt 0)),
                          (''last_scrape_skipped'', dict_get (e_statistics (to_dict r)) ''skipped_duplicates'' (SInt 0)),
                          (''last_scrape_date'', SStr (scraped_at r))],
                       e_announcements := e_announcements e @ announcements r,
                       e_full_content := e_full_content e @ full_content r,
                       e_errors := e_errors e @ errors r \<rparr>)
      else map_of rbs n)"
  by (auto simp: merge_result_def update_conv' Let_def to_dict_def split: option.splits)

lemma stored_urls_merge_same:
  "stored_urls (merge_result (nm, r) rbs) nm
     = stored_urls rbs nm \<union> set (admitted_urls r) \<union> set (filter truthy (map c_url (full_content r)))"
  by (auto simp: stored_urls_def map_of_merge_result entry_urls_def admitted_urls_def to_dict_def
           split: option.splits)

lemma stored_urls_merge_other:
  "n \<noteq> nm \<Longrightarrow> stored_urls (merge_result (nm, r) rbs) n = stored_urls rbs n"
  by (simp add: stored_urls_def map_of_merge_result)

lemma keys_merge_result:
  "set (map fst (merge_result (nm, r) rbs)) = insert nm (set (map fst rbs))"
  by (auto simp: merge_result_def dom_update Let_def split: option.splits)

lemma index_of_merge:
  "index_of rbs nm \<union> set (admitted_urls r) \<subseteq> index_of (merge_result (nm, r) rbs) nm"
proof (cases "nm = []")
  case False
  then show ?thesis by (auto simp: index_of_def stored_urls_merge_same)
next
  case True
  have "stored_urls rbs n \<subseteq> stored_urls (merge_result (nm, r) rbs) n" for n
    by (cases "n = nm") (auto simp: stored_urls_merge_same stored_urls_merge_other)
  then have "(\<Union>n \<in> set (map fst rbs). stored_urls rbs n)
               \<subseteq> (\<Union>n \<in> set (map fst (merge_result (nm, r) rbs)). stored_urls (merge_result (nm, r) rbs) n)"
    unfolding keys_merge_result by blast
  moreover have "set (admitted_urls r)
               \<subseteq> (\<Union>n \<in> set (map fst (merge_result (nm, r) rbs)). stored_urls (merge_result (nm, r) rbs) n)"
    unfolding keys_merge_result using stored_urls_merge_same[of nm r rbs] by blast
  ultimately show ?thesis using True by (simp add: index_of_def)
qed


text \<open>Running a collector and merging its result, then running it again.\<close>

lemma count_split:
  "length (filter (\<lambda>a. \<not> admitted E a) L)
     + length (filter truthy (map url_of (filter (admitted E) L)))
   = length (filter (\<lambda>a. truthy (url_of a)) L)"
  by (induction L) (auto simp: admitted_def)

lemma rerun_filter:
  assumes sub: "E1 \<union> set (filter truthy (map url_of (filter (admitted E1) L))) \<subseteq> E2"
  shows "filter (admitted E2) L = filter (\<lambda>a. \<not> truthy (url_of a)) L"
proof (rule filter_cong[OF refl])
  fix a assume a: "a \<in> set L"
  show "admitted E2 a = (\<not> truthy (url_of a))"
  proof (cases "truthy (url_of a)")
    case False
    then show ?thesis by (simp add: admitted_def)
  next
    case True
    have "url_of a \<in> E2"
    proof (cases "url_of a \<in> E1")
      case True
      with sub show ?thesis by blast
    next
      case False
      then have "admitted E1 a" by (simp add: admitted_def)
      with a True have "url_of a \<in> set (filter truthy (map url_of (filter (admitted E1) L)))"
        by auto
      with sub show ?thesis by blast
    qed
    with True show ?thesis by (simp add: admitted_def)
  qed
qed

lemma run_and_merge_loaded:
  assumes c: "map_of (loaded_scrapers orch) nm = Some c"
    and n: "map_of (get_scraper_info c) ''name'' = Some name"
    and f: "master_file orch \<noteq> Corrupt"
  obtains r d where
    "run_and_merge repr clock now uuid4 clock' nm sd ed fc orch
       = Some (r, orch\<lparr>results := AList.update nm r (results orch), master_file := Readable d\<rparr>)"
    and "results_by_scraper d
           = merge_result (nm, r) (results_by_scraper (loaded_store clock (master_file orch)))"
    and "existing_urls r = index_of (results_by_scraper (loaded_store clock (master_file orch))) nm"
    and "map a_raw_data (announcements r) = filter (admitted (existing_urls r)) (listing_of c sd ed)"
    and "map a_url (announcements r) = map url_of (filter (admitted (existing_urls r)) (listing_of c sd ed))"
    and "skipped_duplicates r = length (filter (\<lambda>a. \<not> admitted (existing_urls r) a) (listing_of c sd ed))"
proof -
  let ?E = "index_of (results_by_scraper (loaded_store clock (master_file orch))) nm"
  have E: "get_existing_urls clock (master_file orch) (Some nm) = Some ?E"
    by (rule get_existing_urls_index[OF f])
  from run_scraper_loaded[OF c n E, of repr now uuid4 sd ed fc]
  obtain r where r:
    "run_scraper repr clock now uuid4 nm sd ed fc orch
       = Some (Inr r,
               Call_get_scraper_info # Call_scrape_announcements sd ed
                 # (if fc \<and> fetch_urls c sd ed ?E \<noteq> []
                    then [Call_scrape_full_content (fetch_urls c sd ed ?E)] else []),
               orch\<lparr>results := AList.update nm r (results orch)\<rparr>)"
    "existing_urls r = ?E"
    "map a_raw_data (announcements r) = filter (admitted ?E) (listing_of c sd ed)"
    "map a_url (announcements r) = map url_of (filter (admitted ?E) (listing_of c sd ed))"
    "skipped_duplicates r = length (filter (\<lambda>a. \<not> admitted ?E a) (listing_of c sd ed))"
    by blast
  let ?orch1 = "orch\<lparr>results := AList.update nm r (results orch)\<rparr>"
  have f1: "master_file ?orch1 \<noteq> Corrupt" using f by simp
  let ?d = "merged_store clock' (if master_file orch = Absent then 2 else 0) [(nm, r)]
              (loaded_store clock' (master_file orch))"
  have m: "run_and_merge repr clock now uuid4 clock' nm sd ed fc orch
       = Some (r, orch\<lparr>results := AList.update nm r (results orch), master_file := Readable ?d\<rparr>)"
    by (simp add: run_and_merge_def r(1) update_master_file_loadable[OF f1])
  have d: "results_by_scraper ?d
           = merge_result (nm, r) (results_by_scraper (loaded_store clock (master_file orch)))"
    by (simp add: merged_store_def Let_def loaded_store_rbs[of clock' _ clock])
  show ?thesis
    by (rule that[OF m d]) (simp_all add: r)
qed

text \<open>
  Claim C2, as amended. Let a loaded Collector be run, its result merged into a master
  file that loads, and the same Collector be run again with the same date range (the
  Collector is a function of its arguments, so it lists the same records). Then the second
  run admits exactly the listed records whose url is empty, hence no announcement with a
  non-empty url, and its \<^verbatim>\<open>skipped_duplicates\<close> is the number of listed records with a
  non-empty url, which is the first run's \<^verbatim>\<open>skipped_duplicates\<close> plus the number of
  announcements with a non-empty url that the first run admitted.
\<close>

theorem rerun_admits_only_empty_urls:
  assumes c: "map_of (loaded_scrapers orch) nm = Some c"
    and n: "map_of (get_scraper_info c) ''name'' = Some name"
    and f: "master_file orch \<noteq> Corrupt"
  shows "\<exists>r1 r2.
           rerun repr clock now uuid4 clock' nm sd ed fc orch = Some (r1, r2)
           \<and> map a_raw_data (announcements r2)
               = filter (\<lambda>a. \<not> truthy (url_of a)) (listing_of c sd ed)
           \<and> admitted_urls r2 = []
           \<and> skipped_duplicates r2 = length (filter (\<lambda>a. truthy (url_of a)) (listing_of c sd ed))
           \<and> skipped_duplicates r2 = skipped_duplicates r1 + length (admitted_urls r1)"
proof -
  let ?L = "listing_of c sd ed"
  from run_and_merge_loaded[OF c n f, of repr clock now uuid4 clock' sd ed fc]
  obtain r1 d where r1:
    "run_and_merge repr clock now uuid4 clock' nm sd ed fc orch
       = Some (r1, orch\<lparr>results := AList.update nm r1 (results orch), master_file := Readable d\<rparr>)"
    "results_by_scraper d
           = merge_result (nm, r1) (results_by_scraper (loaded_store clock (master_file orch)))"
    "existing_urls r1 = index_of (results_by_scraper (loaded_store clock (master_file orch))) nm"
    "map a_url (announcements r1) = map url_of (filter (admitted (existing_urls r1)) ?L)"
    "skipped_duplicates r1 = length (filter (\<lambda>a. \<not> admitted (existing_urls r1) a) ?L)"
    by blast
  let ?orch2 = "orch\<lparr>results := AList.update nm r1 (results orch), master_file := Readable d\<rparr>"
  let ?E1 = "existing_urls r1"
  let ?E2 = "index_of (results_by_scraper d) nm"
  have c2: "map_of (loaded_scrapers ?orch2) nm = Some c" using c by simp
  have E2: "get_existing_urls clock (master_file ?orch2) (Some nm) = Some ?E2"
    using get_existing_urls_index[of "Readable d" clock nm] by (simp add: loaded_store_def)
  from run_scraper_loaded[OF c2 n E2, of repr now uuid4 sd ed fc]
  obtain r2 where r2:
    "run_scraper repr clock now uuid4 nm sd ed fc ?orch2
       = Some (Inr r2,
               Call_get_scraper_info # Call_scrape_announcements sd ed
                 # (if fc \<and> fetch_urls c sd ed ?E2 \<noteq> []
                    then [Call_scrape_full_content (fetch_urls c sd ed ?E2)] else []),
               ?orch2\<lparr>results := AList.update nm r2 (results ?orch2)\<rparr>)"
    "map a_raw_data (announcements r2) = filter (admitted ?E2) ?L"
    "map a_url (announcements r2) = map url_of (filter (admitted ?E2) ?L)"
    "skipped_duplicates r2 = length (filter (\<lambda>a. \<not> admitted ?E2 a) ?L)"
    by blast
  have a1: "admitted_urls r1 = filter truthy (map url_of (filter (admitted ?E1) ?L))"
    by (simp add: admitted_urls_def r1(4))
  have sub: "?E1 \<union> set (filter truthy (map url_of (filter (admitted ?E1) ?L))) \<subseteq> ?E2"
    using index_of_merge[of "results_by_scraper (loaded_store clock (master_file orch))" nm r1]
    by (simp add: r1(2) r1(3) a1)
  have flt: "filter (admitted ?E2) ?L = filter (\<lambda>a. \<not> truthy (url_of a)) ?L"
    by (rule rerun_filter[OF sub])
  have nflt: "filter (\<lambda>a. \<not> admitted ?E2 a) ?L = filter (\<lambda>a. truthy (url_of a)) ?L"
  proof (rule filter_cong[OF refl])
    fix a assume "a \<in> set ?L"
    then have "a \<in> set (filter (admitted ?E2) ?L) \<longleftrightarrow> a \<in> set (filter (\<lambda>a. \<not> truthy (url_of a)) ?L)"
      by (simp only: flt)
    with \<open>a \<in> set ?L\<close> show "(\<not> admitted ?E2 a) = truthy (url_of a)" by auto
  qed
  have run: "rerun repr clock now uuid4 clock' nm sd ed fc orch = Some (r1, r2)"
    by (simp add: rerun_def r1(1) r2(1))
  have p1: "map a_raw_data (announcements r2) = filter (\<lambda>a. \<not> truthy (url_of a)) ?L"
    by (simp add: r2(2) flt)
  have p2: "admitted_urls r2 = []"
    by (simp add: admitted_urls_def r2(3) flt filter_map comp_def filter_empty_conv)
  have p3: "skipped_duplicates r2 = length (filter (\<lambda>a. truthy (url_of a)) ?L)"
    by (simp add: r2(4) nflt)
  have p4: "skipped_duplicates r2 = skipped_duplicates r1 + length (admitted_urls r1)"
    by (simp only: p3 r1(5) a1 count_split)
  show ?thesis using run p1 p2 p3 p4 by blast
qed


theorem rerun_admits_only_empty_urls_witness:
  "map_of (loaded_scrapers (demo_orch (demo_collector [listing ''u1'', listing ''''] (Returned []))
                              (Readable seeded_store))) ''x_scraper''
     = Some (demo_collector [listing ''u1'', listing ''''] (Returned []))
   \<and> map_of (get_scraper_info (demo_collector [listing ''u1'', listing ''''] (Returned []))) ''name''
       = Some (PStr ''X'')
   \<and> master_file (demo_orch (demo_collector [listing ''u1'', listing ''''] (Returned []))
                     (Readable seeded_store)) \<noteq> Corrupt
   \<and> (\<exists>r1 r2.
         rerun quote_repr clock0 ''now'' uuid0 clock0 ''x_scraper'' ''2024-09-01'' ''2024-09-30'' True
             (demo_orch (demo_collector [listing ''u1'', listing ''''] (Returned []))
                (Readable seeded_store))
           = Some (r1, r2)
         \<and> map a_raw_data (announcements r2)
             = filter (\<lambda>a. \<not> truthy (url_of a))
                 (listing_of (demo_collector [listing ''u1'', listing ''''] (Returned []))
                    ''2024-09-01'' ''2024-09-30'')
         \<and> admitted_urls r2 = []
         \<and> skipped_duplicates r2
             = length (filter (\<lambda>a. truthy (url_of a))
                 (listing_of (demo_collector [listing ''u1'', listing ''''] (Returned []))
                    ''2024-09-01'' ''2024-09-30''))
         \<and> skipped_duplicates r2 = skipped_duplicates r1 + length (admitted_urls r1))"
proof -
  let ?c = "demo_collector [listing ''u1'', listing ''''] (Returned [])"
  let ?orch = "demo_orch ?c (Readable seeded_store)"
  have h1: "map_of (loaded_scrapers ?orch) ''x_scraper'' = Some ?c"
    by (simp add: demo_orch_def)
  have h2: "map_of (get_scraper_info ?c) ''name'' = Some (PStr ''X'')"
    by (simp add: demo_collector_def)
  have h3: "master_file ?orch \<noteq> Corrupt"
    by (simp add: demo_orch_def)
  note t = rerun_admits_only_empty_urls[OF h1 h2 h3, of quote_repr clock0 "''now''" uuid0 clock0
             "''2024-09-01''" "''2024-09-30''" True]
  show ?thesis by (intro conjI h1 h2 h3 t)
qed

text \<open>The equations that evaluate a run and a merge on the concrete inputs.\<close>

lemmas run_eval =
  run_scraper_def demo_orch_def demo_collector_def get_existing_urls_def load_absent
  load_readable empty_store_def run_try_def listing_def add_announcement_def Let_def
  dict_get_def new_urls_of_def ScraperResult_init_def update_master_file_def
  merged_store_def merge_result_def to_dict_def save_states_def standardize_announcement_def
  entry_urls_def update_statistics_eq dict_update_all_def

text \<open>
  Claim C2, as stated, fails. The store below already holds \<open>u1\<close> for the collector, which
  lists \<open>u1\<close> and a record without url. The first run admits no announcement with a
  non-empty url; the second run, after the merge, admits one announcement (the record
  without url) instead of none, and skips one duplicate instead of as many as the first
  run admitted with a non-empty url, which is none.
\<close>

theorem rerun_not_idempotent_counterexample:
  "rerun_counts
     (rerun quote_repr clock0 ''now'' uuid0 clock0 ''x_scraper'' ''2024-09-01'' ''2024-09-30'' True
        (demo_orch (demo_collector [listing ''u1'', listing ''''] (Returned []))
           (Readable seeded_store)))
   = Some (0, 1, 1)"
  by (simp add: rerun_counts_def rerun_def run_and_merge_def seeded_store_def seed_result_def
        admitted_urls_def run_eval)

section \<open>Duplicate urls within one run\<close>

text \<open>
  Claim C5. The claim asks that no two announcements stored for a collector share a
  non-empty url, also when one listing yields the same url twice. On the empty store, a
  Collector that lists \<open>u1\<close> twice has both records admitted (\<^const>\<open>add_announcement\<close>
  looks the url up in \<open>existing_urls\<close> only, never in \<open>new_urls\<close>), and the merge stores
  both.
\<close>

theorem duplicate_url_within_run_is_stored_twice:
  "stored_after
     (run_and_merge quote_repr clock0 ''now'' uuid0 clock0 ''x_scraper'' ''2024-09-01'' ''2024-09-30'' True
        (demo_orch (demo_collector [listing ''u1'', listing ''u1''] (Returned [])) Absent))
     ''x_scraper''
   = Some [PStr ''u1'', PStr ''u1'']"
  by (simp add: stored_after_def run_and_merge_def stored_announcement_urls_def run_eval)

section \<open>Admission of listing records\<close>

text \<open>
  Claim C4. For every listing record offered to the run accumulator, \<open>add_announcement\<close>
  rejects it exactly when its url is non-empty (truthy) and in the snapshot
  \<open>existing_urls\<close>; a record with an empty url is therefore always accepted. A rejection
  adds one to \<open>skipped_duplicates\<close> and leaves \<open>announcements\<close> as it was; an acceptance
  appends the standardized record and leaves \<open>skipped_duplicates\<close> as it was.
\<close>

theorem add_announcement_admission:
  "fst (add_announcement uuid4 a r)
     = (\<not> (truthy (dict_get a ''url'' (PStr '''')) \<and> dict_get a ''url'' (PStr '''') \<in> existing_urls r))
   \<and> (if fst (add_announcement uuid4 a r)
      then announcements (snd (add_announcement uuid4 a r))
             = announcements r @ [standardize_announcement uuid4 r a]
         \<and> skipped_duplicates (snd (add_announcement uuid4 a r)) = skipped_duplicates r
      else announcements (snd (add_announcement uuid4 a r)) = announcements r
         \<and> skipped_duplicates (snd (add_announcement uuid4 a r)) = skipped_duplicates r + 1)"
  by (simp add: add_announcement_def Let_def)

end
